theory Spec2Isabelle
  imports Main "HOL-Library.Sublist" "HOL-Library.List_Lexorder" "HOL-Library.Char_ord"
begin

section \<open>Python values read from JSON\<close>

text \<open>
  \<^verbatim>\<open>view_traces.py\<close> works on whatever \<^verbatim>\<open>json.load\<close> returns: dicts, lists, strings,
  ints, floats, booleans and \<^verbatim>\<open>None\<close>. A dict is an association list in insertion order
  (its keys are strings, and distinct, as a Python dict's are). A \<^verbatim>\<open>str\<close> is a \<open>string\<close>
  whose characters stand for code points below 256. The program never computes with a
  float: it only tests one for truth and prints it, so a float is carried as the text
  \<^verbatim>\<open>repr\<close> prints for it.
\<close>

datatype json =
    JNull
  | JBool bool
  | JInt int
  | JFloat string
  | JStr string
  | JList "json list"
  | JObj "(string \<times> json) list"

datatype py_error =
    JSONDecodeError
  | AttributeError
  | TypeError
  | KeyError
  | IndexError
  | ValueError
  | RecursionError

type_synonym summary = "(string \<times> json) list"

text \<open>\<^verbatim>\<open>d.get(k)\<close> on a dict: the value stored under the key, \<^verbatim>\<open>None\<close> when there is none.\<close>

definition dict_get :: "(string \<times> json) list \<Rightarrow> string \<Rightarrow> json \<Rightarrow> json" where
  "dict_get kvs k dflt = (case map_of kvs k of None \<Rightarrow> dflt | Some v \<Rightarrow> v)"

text \<open>\<^verbatim>\<open>d[k] = v\<close>: replaces the value of a key already there, else appends the key.\<close>

fun dict_set :: "(string \<times> json) list \<Rightarrow> string \<Rightarrow> json \<Rightarrow> (string \<times> json) list" where
  "dict_set [] k v = [(k, v)]"
| "dict_set ((k', v') # kvs) k v =
     (if k' = k then (k, v) # kvs else (k', v') # dict_set kvs k v)"

definition dict_keys :: "(string \<times> json) list \<Rightarrow> string list" where
  "dict_keys kvs = remdups (map fst kvs)"

text \<open>\<^verbatim>\<open>x.get(k, dflt)\<close> on any value: only a dict has the method.\<close>

fun py_get :: "json \<Rightarrow> string \<Rightarrow> json \<Rightarrow> py_error + json" where
  "py_get (JObj kvs) k dflt = Inr (dict_get kvs k dflt)"
| "py_get _ k dflt = Inl AttributeError"

text \<open>Truth value of a Python object (\<^verbatim>\<open>if x\<close>, \<^verbatim>\<open>not x\<close>).\<close>

fun py_truthy :: "json \<Rightarrow> bool" where
  "py_truthy JNull = False"
| "py_truthy (JBool b) = b"
| "py_truthy (JInt i) = (i \<noteq> 0)"
| "py_truthy (JFloat r) = (r \<noteq> ''0.0'' \<and> r \<noteq> ''-0.0'')"
| "py_truthy (JStr s) = (s \<noteq> [])"
| "py_truthy (JList xs) = (xs \<noteq> [])"
| "py_truthy (JObj kvs) = (kvs \<noteq> [])"

text \<open>\<^verbatim>\<open>len(x)\<close>: defined on strings, lists and dicts, a \<^verbatim>\<open>TypeError\<close> on the rest.\<close>

fun py_len :: "json \<Rightarrow> py_error + nat" where
  "py_len (JStr s) = Inr (length s)"
| "py_len (JList xs) = Inr (length xs)"
| "py_len (JObj kvs) = Inr (length (dict_keys kvs))"
| "py_len _ = Inl TypeError"

text \<open>
  \<^verbatim>\<open>x[0]\<close>: the first element of a list, the first character of a string. A dict read
  from JSON has string keys only, so the key \<^verbatim>\<open>0\<close> is never there.
\<close>

fun py_first :: "json \<Rightarrow> py_error + json" where
  "py_first (JList []) = Inl IndexError"
| "py_first (JList (x # xs)) = Inr x"
| "py_first (JStr []) = Inl IndexError"
| "py_first (JStr (c # cs)) = Inr (JStr [c])"
| "py_first (JObj kvs) = Inl KeyError"
| "py_first _ = Inl TypeError"

text \<open>
  \<^verbatim>\<open>key in x\<close> for a string key: a key of a dict, an element of a list, a substring of a
  string; a \<^verbatim>\<open>TypeError\<close> on a value that is no container.
\<close>

fun py_contains :: "json \<Rightarrow> string \<Rightarrow> py_error + bool" where
  "py_contains (JObj kvs) key = Inr (key \<in> set (map fst kvs))"
| "py_contains (JList xs) key = Inr (JStr key \<in> set xs)"
| "py_contains (JStr s) key = Inr (sublist key s)"
| "py_contains _ key = Inl TypeError"

text \<open>\<^verbatim>\<open>x[key]\<close> for a string key: lists and strings take integer indices only.\<close>

fun py_getitem :: "json \<Rightarrow> string \<Rightarrow> py_error + json" where
  "py_getitem (JObj kvs) key =
     (case map_of kvs key of None \<Rightarrow> Inl KeyError | Some v \<Rightarrow> Inr v)"
| "py_getitem _ key = Inl TypeError"


fun is_dict :: "json \<Rightarrow> bool" where
  "is_dict (JObj kvs) = True"
| "is_dict _ = False"

subsection \<open>\<^verbatim>\<open>str\<close> and \<^verbatim>\<open>repr\<close>\<close>

definition digit_char :: "nat \<Rightarrow> char" where
  "digit_char d = ''0123456789abcdef'' ! (d mod 16)"

function str_nat :: "nat \<Rightarrow> string" where
  "str_nat n = (if n < 10 then [digit_char n] else str_nat (n div 10) @ [digit_char (n mod 10)])"
  by pat_completeness auto
termination
  by (relation "measure id") auto

declare str_nat.simps [simp del]

definition str_int :: "int \<Rightarrow> string" where
  "str_int i = (if i < 0 then CHR ''-'' # str_nat (nat (- i)) else str_nat (nat i))"

text \<open>
  \<^verbatim>\<open>repr\<close> of a \<^verbatim>\<open>str\<close>: double quotes when the text has a single quote and no double
  quote, single quotes otherwise; the quote and the backslash are escaped, tab, newline
  and carriage return are written \<^verbatim>\<open>\t\<close>, \<^verbatim>\<open>\n\<close>, \<^verbatim>\<open>\r\<close>, and every other code point
  that is not printable is written \<^verbatim>\<open>\xNN\<close>. Below 256 the printable code points are
  32 to 126 and 161 to 255 without 173.
\<close>

definition printable :: "char \<Rightarrow> bool" where
  "printable c =
     (let n = (of_char c :: nat) in (32 \<le> n \<and> n < 127) \<or> (161 \<le> n \<and> n \<noteq> 173))"

definition repr_char :: "char \<Rightarrow> char \<Rightarrow> string" where
  "repr_char quote c =
     (if c = quote \<or> c = CHR 0x5C then [CHR 0x5C, c]
      else if c = CHR 0x09 then [CHR 0x5C, CHR ''t'']
      else if c = CHR 0x0A then [CHR 0x5C, CHR ''n'']
      else if c = CHR 0x0D then [CHR 0x5C, CHR ''r'']
      else if \<not> printable c
        then [CHR 0x5C, CHR ''x'', digit_char (of_char c div 16), digit_char (of_char c mod 16)]
      else [c])"

definition repr_str :: "string \<Rightarrow> string" where
  "repr_str s =
     (let quote = (if CHR 0x27 \<in> set s \<and> CHR 0x22 \<notin> set s then CHR 0x22 else CHR 0x27)
      in quote # concat (map (repr_char quote) s) @ [quote])"

fun join_sep :: "string \<Rightarrow> string list \<Rightarrow> string" where
  "join_sep sep [] = []"
| "join_sep sep [x] = x"
| "join_sep sep (x # y # ys) = x @ sep @ join_sep sep (y # ys)"

primrec py_repr :: "json \<Rightarrow> string" where
  "py_repr JNull = ''None''"
| "py_repr (JBool b) = (if b then ''True'' else ''False'')"
| "py_repr (JInt i) = str_int i"
| "py_repr (JFloat r) = r"
| "py_repr (JStr s) = repr_str s"
| "py_repr (JList xs) = ''['' @ join_sep '', '' (map py_repr xs) @ '']''"
| "py_repr (JObj kvs) =
     ''{'' @ join_sep '', '' (map (\<lambda>(k, r). repr_str k @ '': '' @ r) (map (map_prod id py_repr) kvs))
       @ ''}''"

text \<open>\<^verbatim>\<open>str(x)\<close>: a string is itself, every other value prints as its \<^verbatim>\<open>repr\<close>.\<close>

fun py_str :: "json \<Rightarrow> string" where
  "py_str (JStr s) = s"
| "py_str v = py_repr v"

section \<open>The trace loader\<close>

text \<open>
  \<^verbatim>\<open>json.loads\<close> is the standard library's and a parameter \<open>L\<close> of every function below:
  on a \<^verbatim>\<open>str\<close> it returns the decoded value or raises, \<^verbatim>\<open>JSONDecodeError\<close> on malformed
  text, and also \<^verbatim>\<open>ValueError\<close> (an integer of more digits than the interpreter converts)
  or \<^verbatim>\<open>RecursionError\<close> (nesting too deep). Each theorem holds for any decoder. On a
  value that is not a \<^verbatim>\<open>str\<close>, \<^verbatim>\<open>json.loads\<close> raises \<^verbatim>\<open>TypeError\<close>.
\<close>

type_synonym decoder = "string \<Rightarrow> py_error + json"

fun json_loads :: "decoder \<Rightarrow> json \<Rightarrow> py_error + json" where
  "json_loads L (JStr s) = L s"
| "json_loads L _ = Inl TypeError"

text \<open>
  One entry of the trace directory, as \<^verbatim>\<open>trace_dir.iterdir()\<close> yields it: \<open>name\<close> is
  \<^verbatim>\<open>d.name\<close>, \<open>path\<close> is \<^verbatim>\<open>str(d)\<close>, \<open>is_dir\<close> is \<^verbatim>\<open>d.is_dir()\<close>, and \<open>artifact\<close> is the text
  of \<^verbatim>\<open>d / "artifacts" / "traces.json"\<close>, \<open>None\<close> when that file does not exist.
\<close>

record dir_entry =
  name :: string
  path :: string
  is_dir :: bool
  artifact :: "string option"

definition load_trace :: "decoder \<Rightarrow> dir_entry \<Rightarrow> py_error + json" where
  "load_trace L trace_path =
     (case artifact trace_path of
        Some raw \<Rightarrow> L raw
      | None \<Rightarrow> Inr (JObj []))"

section \<open>The trace summarizer\<close>

text \<open>
  The body of the \<^verbatim>\<open>try\<close> block for \<^verbatim>\<open>mlflow.spanInputs\<close> and for \<^verbatim>\<open>mlflow.spanOutputs\<close>.
  \<^verbatim>\<open>info\<close> is updated in place, so an exception leaves the updates made before it:
  each body returns the exception, if any, with the summary as it then is.
\<close>

definition extract_inputs :: "json \<Rightarrow> summary \<Rightarrow> py_error option \<times> summary" where
  "extract_inputs data info =
     (case py_get data ''kwargs'' (JObj []) of
        Inl e \<Rightarrow> (Some e, info)
      | Inr kwargs \<Rightarrow>
     (case py_get kwargs ''index'' JNull of
        Inl e \<Rightarrow> (Some e, info)
      | Inr idx \<Rightarrow>
     (case py_get kwargs ''data_source'' JNull of
        Inl e \<Rightarrow> (Some e, dict_set info ''index'' idx)
      | Inr src \<Rightarrow>
     (case py_get kwargs ''extra_info'' (JObj []) of
        Inl e \<Rightarrow> (Some e, dict_set (dict_set info ''index'' idx) ''data_source'' src)
      | Inr extra \<Rightarrow>
          (if is_dict extra then
             (case py_get extra ''index'' JNull of
                Inl e \<Rightarrow> (Some e, dict_set (dict_set info ''index'' idx) ''data_source'' src)
              | Inr si \<Rightarrow>
                  (None, dict_set (dict_set (dict_set info ''index'' idx) ''data_source'' src)
                           ''sample_index'' si))
           else (None, dict_set (dict_set info ''index'' idx) ''data_source'' src))))))"

definition extract_outputs :: "json \<Rightarrow> summary \<Rightarrow> py_error option \<times> summary" where
  "extract_outputs data info =
     (case py_get data ''token_ids'' (JList []) of
        Inl e \<Rightarrow> (Some e, info)
      | Inr token_ids \<Rightarrow>
          (None, dict_set info ''output_tokens''
                   (case token_ids of JList xs \<Rightarrow> JInt (int (length xs)) | _ \<Rightarrow> JNull)))"

definition try_body :: "decoder \<Rightarrow> json \<Rightarrow> string \<Rightarrow> summary \<Rightarrow> py_error option \<times> summary" where
  "try_body L attributes key info =
     (case py_getitem attributes key of
        Inl e \<Rightarrow> (Some e, info)
      | Inr v \<Rightarrow>
     (case json_loads L v of
        Inl e \<Rightarrow> (Some e, info)
      | Inr data \<Rightarrow>
          (if key = ''mlflow.spanInputs'' then extract_inputs data info
           else if key = ''mlflow.spanOutputs'' then extract_outputs data info
           else (None, info))))"

text \<open>\<^verbatim>\<open>except (json.JSONDecodeError, AttributeError): pass\<close>; any other exception goes on.\<close>

definition extract_key :: "decoder \<Rightarrow> json \<Rightarrow> string \<Rightarrow> summary \<Rightarrow> py_error + summary" where
  "extract_key L attributes key info =
     (case try_body L attributes key info of
        (None, info') \<Rightarrow> Inr info'
      | (Some e, info') \<Rightarrow>
          (if e = JSONDecodeError \<or> e = AttributeError then Inr info' else Inl e))"

text \<open>The loop \<^verbatim>\<open>for key in ["mlflow.spanInputs", "mlflow.spanOutputs"]\<close>.\<close>

fun extract_keys :: "decoder \<Rightarrow> json \<Rightarrow> string list \<Rightarrow> summary \<Rightarrow> py_error + summary" where
  "extract_keys L attributes [] info = Inr info"
| "extract_keys L attributes (key # keys) info =
     (case py_contains attributes key of
        Inl e \<Rightarrow> Inl e
      | Inr False \<Rightarrow> extract_keys L attributes keys info
      | Inr True \<Rightarrow>
          (case extract_key L attributes key info of
             Inl e \<Rightarrow> Inl e
           | Inr info' \<Rightarrow> extract_keys L attributes keys info'))"

definition extract_trace_info :: "decoder \<Rightarrow> json \<Rightarrow> py_error + summary" where
  "extract_trace_info L trace_data =
     (if \<not> py_truthy trace_data then Inr []
      else
     (case py_get trace_data ''trace_id'' JNull of
        Inl e \<Rightarrow> Inl e
      | Inr trace_id \<Rightarrow>
     (case py_get trace_data ''status'' (JObj []) of
        Inl e \<Rightarrow> Inl e
      | Inr status \<Rightarrow>
     (case py_get status ''code'' JNull of
        Inl e \<Rightarrow> Inl e
      | Inr code \<Rightarrow>
     (case py_get trace_data ''spans'' (JList []) of
        Inl e \<Rightarrow> Inl e
      | Inr spans \<Rightarrow>
     (case py_len spans of
        Inl e \<Rightarrow> Inl e
      | Inr n \<Rightarrow>
          (let info = [(''trace_id'', trace_id), (''status'', code), (''spans'', JInt (int n))]
           in if py_truthy spans then
                (case py_first spans of
                   Inl e \<Rightarrow> Inl e
                 | Inr first_span \<Rightarrow>
                (case py_get first_span ''attributes'' (JObj []) of
                   Inl e \<Rightarrow> Inl e
                 | Inr attributes \<Rightarrow>
                     extract_keys L attributes [''mlflow.spanInputs'', ''mlflow.spanOutputs''] info))
              else Inr info)))))))"

section \<open>Filtering and listing\<close>

text \<open>
  \<^verbatim>\<open>sorted([d for d in trace_dir.iterdir() if d.is_dir() and d.name.startswith("tr-")])\<close>.
  The entries of one directory differ in their last component only, so the order of the
  paths is the order of the names, code point by code point.
\<close>

definition trace_folders :: "dir_entry list \<Rightarrow> dir_entry list" where
  "trace_folders trace_dir =
     sort_key name (filter (\<lambda>d. is_dir d \<and> prefix ''tr-'' (name d)) trace_dir)"

text \<open>\<^verbatim>\<open>all(str(info.get(k)) == v for k, v in filters.items())\<close>\<close>

definition filters_match :: "(string \<times> string) list \<Rightarrow> summary \<Rightarrow> bool" where
  "filters_match filters info =
     list_all (\<lambda>(k, v). py_str (dict_get info k JNull) = v) filters"

text \<open>\<^verbatim>\<open>limit and len(traces) >= limit\<close>: \<^verbatim>\<open>None\<close> and \<^verbatim>\<open>0\<close> are both false.\<close>

definition limit_reached :: "int option \<Rightarrow> summary list \<Rightarrow> bool" where
  "limit_reached limit traces =
     (case limit of None \<Rightarrow> False | Some n \<Rightarrow> n \<noteq> 0 \<and> n \<le> int (length traces))"

text \<open>
  The loop of \<^verbatim>\<open>list_traces\<close> over the sorted folders, with the list \<^verbatim>\<open>traces\<close> collected
  so far. \<^verbatim>\<open>filters\<close> is \<^verbatim>\<open>None\<close> or a dict of strings; an empty dict is false, like
  \<^verbatim>\<open>None\<close>.
\<close>

fun list_loop ::
  "decoder \<Rightarrow> (string \<times> string) list option \<Rightarrow> int option \<Rightarrow> dir_entry list
     \<Rightarrow> summary list \<Rightarrow> py_error + summary list" where
  "list_loop L filters limit [] traces = Inr traces"
| "list_loop L filters limit (trace_path # rest) traces =
     (if limit_reached limit traces then Inr traces
      else
     (case load_trace L trace_path of
        Inl e \<Rightarrow> Inl e
      | Inr trace_data \<Rightarrow>
     (case extract_trace_info L trace_data of
        Inl e \<Rightarrow> Inl e
      | Inr info \<Rightarrow>
          (if info = [] then list_loop L filters limit rest traces
           else if (case filters of
                      None \<Rightarrow> False
                    | Some fs \<Rightarrow> fs \<noteq> [] \<and> \<not> filters_match fs info)
             then list_loop L filters limit rest traces
           else list_loop L filters limit rest
                  (traces @ [dict_set info ''path'' (JStr (path trace_path))])))))"

definition list_traces ::
  "decoder \<Rightarrow> dir_entry list \<Rightarrow> (string \<times> string) list option \<Rightarrow> int option
     \<Rightarrow> py_error + summary list" where
  "list_traces L trace_dir filters limit =
     list_loop L filters limit (trace_folders trace_dir) []"

section \<open>The detail view\<close>





section \<open>What the listing is compared with\<close>

text \<open>
  The contract of the listing in the specification's words: a folder contributes a
  summary when it loads and summarizes to a summary that is not empty and that matches
  every filter, and the summaries come in the order of the folders.
\<close>

definition selected ::
  "decoder \<Rightarrow> (string \<times> string) list option \<Rightarrow> dir_entry \<Rightarrow> summary option" where
  "selected L filters d =
     (case load_trace L d of
        Inl e \<Rightarrow> None
      | Inr trace_data \<Rightarrow>
     (case extract_trace_info L trace_data of
        Inl e \<Rightarrow> None
      | Inr info \<Rightarrow>
          (if info \<noteq> [] \<and> (case filters of None \<Rightarrow> True | Some fs \<Rightarrow> filters_match fs info)
           then Some (dict_set info ''path'' (JStr (path d)))
           else None)))"

definition matching_summaries ::
  "decoder \<Rightarrow> (string \<times> string) list option \<Rightarrow> dir_entry list \<Rightarrow> summary list" where
  "matching_summaries L filters ds = List.map_filter (selected L filters) ds"

section \<open>Sample traces\<close>

text \<open>
  A small trace directory for the examples: five trace folders listed out of order, a
  trace folder with no artifact file, a plain file and a folder without the prefix. The
  sample decoder knows the texts of the five trace files and of one more with two empty
  spans, each decoded as \<^verbatim>\<open>json.loads\<close> decodes it.
\<close>

text \<open>A decoder given by a table of texts; every other text is malformed to it.\<close>

definition table_decoder :: "(string \<times> json) list \<Rightarrow> decoder" where
  "table_decoder table s =
     (case map_of table s of None \<Rightarrow> Inl JSONDecodeError | Some v \<Rightarrow> Inr v)"

definition trace_file :: "string \<Rightarrow> string" where
  "trace_file t = ''{\"trace_id\": \"'' @ t @ ''\"}''"

definition two_span_file :: string where
  "two_span_file = ''{\"trace_id\": \"t7\", \"spans\": [{}, {}]}''"

definition demo_decoder :: decoder where
  "demo_decoder =
     table_decoder (map (\<lambda>t. (trace_file t, JObj [(''trace_id'', JStr t)]))
               [''t1'', ''t2'', ''t3'', ''t4'', ''t5'']
             @ [(two_span_file,
                 JObj [(''trace_id'', JStr ''t7''), (''spans'', JList [JObj [], JObj []])])])"

definition demo_folder :: "string \<Rightarrow> string option \<Rightarrow> dir_entry" where
  "demo_folder n a = \<lparr>name = n, path = ''traces/'' @ n, is_dir = True, artifact = a\<rparr>"

definition demo_dir :: "dir_entry list" where
  "demo_dir =
     [demo_folder ''tr-4'' (Some (trace_file ''t4'')),
      demo_folder ''tr-2'' (Some (trace_file ''t2'')),
      \<lparr>name = ''tr-notes.txt'', path = ''traces/tr-notes.txt'', is_dir = False, artifact = None\<rparr>,
      demo_folder ''tr-5'' (Some (trace_file ''t5'')),
      demo_folder ''tr-0'' None,
      demo_folder ''tmp'' (Some (trace_file ''t1'')),
      demo_folder ''tr-1'' (Some (trace_file ''t1'')),
      demo_folder ''tr-3'' (Some (trace_file ''t3''))]"

definition demo_summary :: "string \<Rightarrow> string \<Rightarrow> summary" where
  "demo_summary t n =
     [(''trace_id'', JStr t), (''status'', JNull), (''spans'', JInt 0),
      (''path'', JStr (''traces/'' @ n))]"

text \<open>
  A trace record with one span, for the examples of the summarizer: the two attributes are
  parameters, and the sample decoder knows three payload texts, each decoded as
  \<^verbatim>\<open>json.loads\<close> decodes it.
\<close>

definition inputs_text :: string where
  "inputs_text =
     ''{\"kwargs\": {\"index\": 5, \"data_source\": \"a\", \"extra_info\": {\"index\": 9}}}''"

definition outputs_text :: string where
  "outputs_text = ''{\"token_ids\": [1, 2, 3]}''"

definition outputs_text_str :: string where
  "outputs_text_str = ''{\"token_ids\": \"abc\"}''"

definition span_decoder :: decoder where
  "span_decoder =
     table_decoder
       [(inputs_text,
         JObj [(''kwargs'',
                JObj [(''index'', JInt 5), (''data_source'', JStr ''a''),
                      (''extra_info'', JObj [(''index'', JInt 9)])])]),
        (outputs_text, JObj [(''token_ids'', JList [JInt 1, JInt 2, JInt 3])]),
        (outputs_text_str, JObj [(''token_ids'', JStr ''abc'')])]"

definition demo_attrs :: "json \<Rightarrow> json \<Rightarrow> (string \<times> json) list" where
  "demo_attrs inp out = [(''mlflow.spanInputs'', inp), (''mlflow.spanOutputs'', out)]"

definition demo_span :: "json \<Rightarrow> json \<Rightarrow> (string \<times> json) list" where
  "demo_span inp out = [(''name'', JStr ''generate''), (''attributes'', JObj (demo_attrs inp out))]"

definition demo_record :: "json \<Rightarrow> json \<Rightarrow> (string \<times> json) list" where
  "demo_record inp out =
     [(''trace_id'', JStr ''t1''), (''status'', JObj [(''code'', JStr ''OK'')]),
      (''spans'', JList [JObj (demo_span inp out)])]"










section \<open>The loop of the listing\<close>

lemma filters_match_Nil: "filters_match [] info"
  by (simp add: filters_match_def)

lemma list_loop_zero_limit:
  "list_loop L filters (Some 0) ds traces = list_loop L filters None ds traces"
  by (induction ds arbitrary: traces)
     (simp_all add: limit_reached_def split: sum.splits)

text \<open>Without a limit the loop appends the summary of every selected folder, in order.\<close>

lemma list_loop_unlimited:
  "list_loop L filters None ds traces = Inr r \<Longrightarrow> r = traces @ matching_summaries L filters ds"
proof (induction ds arbitrary: traces)
  case Nil
  then show ?case by (simp add: matching_summaries_def)
next
  case (Cons d ds)
  from Cons.prems obtain td info where
    ld: "load_trace L d = Inr td" and ex: "extract_trace_info L td = Inr info"
    by (auto simp: limit_reached_def split: sum.splits)
  show ?case
  proof (cases "info \<noteq> [] \<and> (case filters of None \<Rightarrow> True | Some fs \<Rightarrow> filters_match fs info)")
    case True
    then have sel: "selected L filters d = Some (dict_set info ''path'' (JStr (path d)))"
      by (simp add: selected_def ld ex)
    from True Cons.prems ld ex
    have "list_loop L filters None ds (traces @ [dict_set info ''path'' (JStr (path d))]) = Inr r"
      by (auto simp: limit_reached_def filters_match_Nil split: option.splits if_splits)
    from Cons.IH [OF this] sel show ?thesis
      by (simp add: matching_summaries_def)
  next
    case False
    then have sel: "selected L filters d = None"
      by (simp add: selected_def ld ex)
    from False Cons.prems ld ex
    have "list_loop L filters None ds traces = Inr r"
      by (auto simp: limit_reached_def filters_match_Nil split: option.splits if_splits)
    from Cons.IH [OF this] sel show ?thesis
      by (simp add: matching_summaries_def)
  qed
qed

text \<open>Once the limit is reached the loop breaks, whatever folders are left.\<close>

lemma list_loop_limit_stop:
  "n \<noteq> 0 \<Longrightarrow> n \<le> int (length traces) \<Longrightarrow> list_loop L filters (Some n) ds traces = Inr traces"
  by (cases ds) (simp_all add: limit_reached_def)

lemma list_loop_limited:
  "0 < n \<Longrightarrow> list_loop L filters None ds traces = Inr r \<Longrightarrow> int (length traces) \<le> n
     \<Longrightarrow> list_loop L filters (Some n) ds traces = Inr (take (nat n) r)"
proof (induction ds arbitrary: traces)
  case Nil
  then show ?case by simp
next
  case (Cons d ds)
  have pre: "r = traces @ matching_summaries L filters (d # ds)"
    using list_loop_unlimited [OF Cons.prems(2)] .
  show ?case
  proof (cases "n \<le> int (length traces)")
    case True
    with Cons.prems have "nat n = length traces" by simp
    with pre have "take (nat n) r = traces" by simp
    with True Cons.prems(1) show ?thesis
      by (simp add: limit_reached_def)
  next
    case False
    from Cons.prems(2) obtain td info where
      ld: "load_trace L d = Inr td" and ex: "extract_trace_info L td = Inr info"
      by (auto simp: limit_reached_def split: sum.splits)
    show ?thesis
    proof (cases "info = [] \<or>
        (case filters of None \<Rightarrow> False | Some fs \<Rightarrow> fs \<noteq> [] \<and> \<not> filters_match fs info)")
      case True
      with Cons.prems(2) ld ex have "list_loop L filters None ds traces = Inr r"
        by (auto simp: limit_reached_def split: if_splits)
      from Cons.IH [OF Cons.prems(1) this Cons.prems(3)] True False ld ex show ?thesis
        by (auto simp: limit_reached_def)
    next
      case skip: False
      let ?t = "traces @ [dict_set info ''path'' (JStr (path d))]"
      from skip Cons.prems(2) ld ex have "list_loop L filters None ds ?t = Inr r"
        by (auto simp: limit_reached_def split: if_splits)
      moreover from False have "int (length ?t) \<le> n" by simp
      ultimately have "list_loop L filters (Some n) ds ?t = Inr (take (nat n) r)"
        using Cons.IH [OF Cons.prems(1)] by blast
      with skip False ld ex show ?thesis
        by (auto simp: limit_reached_def)
    qed
  qed
qed

text \<open>What a listing with a limit returns is a prefix of the matching summaries.\<close>

lemma list_loop_limited_result:
  "0 < n \<Longrightarrow> list_loop L filters (Some n) ds traces = Inr r \<Longrightarrow> int (length traces) \<le> n
     \<Longrightarrow> r = take (nat n) (traces @ matching_summaries L filters ds)"
proof (induction ds arbitrary: traces)
  case Nil
  then show ?case by (simp add: matching_summaries_def)
next
  case (Cons d ds)
  show ?case
  proof (cases "n \<le> int (length traces)")
    case True
    with Cons.prems have "r = traces" "nat n = length traces"
      by (simp_all add: limit_reached_def)
    then show ?thesis by simp
  next
    case False
    with Cons.prems(2) obtain td info where
      ld: "load_trace L d = Inr td" and ex: "extract_trace_info L td = Inr info"
      by (auto simp: limit_reached_def split: sum.splits)
    show ?thesis
    proof (cases "info \<noteq> [] \<and> (case filters of None \<Rightarrow> True | Some fs \<Rightarrow> filters_match fs info)")
      case True
      let ?t = "traces @ [dict_set info ''path'' (JStr (path d))]"
      from True have sel: "selected L filters d = Some (dict_set info ''path'' (JStr (path d)))"
        by (simp add: selected_def ld ex)
      from True False Cons.prems(2) ld ex have "list_loop L filters (Some n) ds ?t = Inr r"
        by (auto simp: limit_reached_def filters_match_Nil split: option.splits if_splits)
      moreover from False have "int (length ?t) \<le> n" by simp
      ultimately have "r = take (nat n) (?t @ matching_summaries L filters ds)"
        using Cons.IH [OF Cons.prems(1)] by blast
      with sel show ?thesis by (simp add: matching_summaries_def)
    next
      case skip: False
      then have sel: "selected L filters d = None"
        by (simp add: selected_def ld ex)
      from skip False Cons.prems(2) ld ex have "list_loop L filters (Some n) ds traces = Inr r"
        by (auto simp: limit_reached_def filters_match_Nil split: option.splits if_splits)
      from Cons.IH [OF Cons.prems(1) this Cons.prems(3)] sel show ?thesis
        by (simp add: matching_summaries_def)
    qed
  qed
qed

text \<open>Without a limit the loop returns exactly when every folder loads and summarizes.\<close>

lemma list_loop_unlimited_returns:
  "(\<exists>r. list_loop L filters None ds traces = Inr r) =
     (\<forall>x \<in> set ds. \<exists>td info. load_trace L x = Inr td \<and> extract_trace_info L td = Inr info)"
proof (induction ds arbitrary: traces)
  case Nil
  show ?case by simp
next
  case (Cons d ds)
  show ?case
  proof (cases "load_trace L d")
    case (Inl e)
    then show ?thesis by (simp add: limit_reached_def)
  next
    case ld: (Inr td)
    show ?thesis
    proof (cases "extract_trace_info L td")
      case (Inl e)
      with ld show ?thesis by (simp add: limit_reached_def)
    next
      case (Inr info)
      with ld Cons.IH [of traces]
        Cons.IH [of "traces @ [dict_set info ''path'' (JStr (path d))]"]
      show ?thesis by (simp add: limit_reached_def)
    qed
  qed
qed

lemma list_loop_result:
  assumes "list_loop L filters limit ds [] = Inr r"
  shows "r = (case limit of
                None \<Rightarrow> matching_summaries L filters ds
              | Some n \<Rightarrow> if n = 0 then matching_summaries L filters ds
                          else take (nat n) (matching_summaries L filters ds))"
proof (cases limit)
  case None
  with assms list_loop_unlimited [of L filters ds "[]" r] show ?thesis by simp
next
  case (Some n)
  consider "n = 0" | "0 < n" | "n < 0" by linarith
  then show ?thesis
  proof cases
    case 1
    with assms Some list_loop_unlimited [of L filters ds "[]" r] show ?thesis
      by (simp add: list_loop_zero_limit)
  next
    case 2
    with assms Some list_loop_limited_result [of n L filters ds "[]" r] show ?thesis by simp
  next
    case 3
    with assms Some list_loop_limit_stop [of n "[]" L filters ds] show ?thesis by simp
  qed
qed

lemma list_loop_skips_empty:
  "artifact d = None \<Longrightarrow>
     list_loop L filters limit (pre @ d # rest) traces = list_loop L filters limit (pre @ rest) traces"
proof (induction pre arbitrary: traces)
  case Nil
  then show ?case
    by (cases rest) (simp_all add: load_trace_def extract_trace_info_def)
next
  case (Cons p pre)
  then show ?case by (simp split: sum.splits)
qed

lemmas demo_defs = table_decoder_def list_traces_def trace_folders_def demo_dir_def demo_folder_def demo_decoder_def
    two_span_file_def
    trace_file_def demo_summary_def load_trace_def extract_trace_info_def limit_reached_def dict_get_def

section \<open>Facts about the summarizer and the folders\<close>

lemma py_len_zero_falsy: "py_len v = Inr 0 \<Longrightarrow> \<not> py_truthy v"
  by (cases v) (auto simp: dict_keys_def)

lemma dict_get_set_same: "dict_get (dict_set info k v) k dflt = v"
  by (induction info) (auto simp: dict_get_def)

lemma list_loop_paths:
  "list_loop L filters limit ds traces = Inr r \<Longrightarrow>
     \<exists>fs r'. subseq fs ds \<and> r = traces @ r' \<and>
        map (\<lambda>info. dict_get info ''path'' JNull) r' = map (\<lambda>d. JStr (path d)) fs"
proof (induction ds arbitrary: traces)
  case Nil
  then show ?case by auto
next
  case (Cons d ds)
  show ?case
  proof (cases "limit_reached limit traces")
    case True
    with Cons.prems have "r = traces" by simp
    then show ?thesis by (intro exI [of _ "[]"]) simp
  next
    case False
    from False Cons.prems obtain td info where
      ld: "load_trace L d = Inr td" and ex: "extract_trace_info L td = Inr info"
      by (auto split: sum.splits)
    show ?thesis
    proof (cases "info = [] \<or>
        (case filters of None \<Rightarrow> False | Some fs \<Rightarrow> fs \<noteq> [] \<and> \<not> filters_match fs info)")
      case True
      with False Cons.prems ld ex have "list_loop L filters limit ds traces = Inr r"
        by (auto split: if_splits)
      from Cons.IH [OF this] obtain fs r' where
        "subseq fs ds" "r = traces @ r'"
        "map (\<lambda>info. dict_get info ''path'' JNull) r' = map (\<lambda>d. JStr (path d)) fs"
        by blast
      then show ?thesis
        by (intro exI [of _ fs] exI [of _ r']) (simp add: list_emb_Cons)
    next
      case keep: False
      let ?s = "dict_set info ''path'' (JStr (path d))"
      from keep False Cons.prems ld ex have "list_loop L filters limit ds (traces @ [?s]) = Inr r"
        by (auto split: if_splits)
      from Cons.IH [OF this] obtain fs r' where
        "subseq fs ds" "r = (traces @ [?s]) @ r'"
        "map (\<lambda>info. dict_get info ''path'' JNull) r' = map (\<lambda>d. JStr (path d)) fs"
        by blast
      then show ?thesis
        by (intro exI [of _ "d # fs"] exI [of _ "?s # r'"]) (simp add: dict_get_set_same)
    qed
  qed
qed

lemma trace_folders_set:
  "set (trace_folders trace_dir) = {d \<in> set trace_dir. is_dir d \<and> prefix ''tr-'' (name d)}"
  by (simp add: trace_folders_def)

lemma trace_folders_sorted: "sorted (map name (trace_folders trace_dir))"
  by (simp add: trace_folders_def)

lemma trace_folders_ignore:
  "trace_folders (filter (\<lambda>d. is_dir d \<and> prefix ''tr-'' (name d)) trace_dir) = trace_folders trace_dir"
  by (simp add: trace_folders_def)

lemma subseq_sorted_map: "subseq xs ys \<Longrightarrow> sorted (map f ys) \<Longrightarrow> sorted (map f xs)"
  by (induction rule: list_emb.induct) (auto dest: list_emb_set)

lemma map_of_dict_set: "map_of (dict_set info k v) = (map_of info)(k \<mapsto> v)"
  by (induction info) (auto simp: fun_eq_iff)

lemma py_get_error: "py_get x k dflt = Inl e \<Longrightarrow> e = AttributeError"
  by (cases x) simp_all

lemma extract_inputs_error:
  "fst (extract_inputs data info) = Some e \<Longrightarrow> e = AttributeError"
  by (auto simp: extract_inputs_def split: sum.splits if_splits dest: py_get_error)

lemma extract_outputs_error:
  "fst (extract_outputs data info) = Some e \<Longrightarrow> e = AttributeError"
  by (auto simp: extract_outputs_def split: sum.splits dest: py_get_error)

text \<open>A failed body of the inputs leaves the summary as it was.\<close>

lemma extract_inputs_failed:
  "fst (extract_inputs data info) = Some e \<Longrightarrow> snd (extract_inputs data info) = info"
proof (cases "py_get data ''kwargs'' (JObj [])")
  case (Inl a)
  then show ?thesis by (simp add: extract_inputs_def)
next
  case (Inr kwargs)
  assume failed: "fst (extract_inputs data info) = Some e"
  show ?thesis
  proof (cases kwargs)
    case (JObj kw)
    with Inr failed show ?thesis
      by (cases "dict_get kw ''extra_info'' (JObj [])") (simp_all add: extract_inputs_def)
  qed (use Inr in \<open>simp_all add: extract_inputs_def\<close>)
qed

lemma extract_outputs_failed:
  "fst (extract_outputs data info) = Some e \<Longrightarrow> snd (extract_outputs data info) = info"
  by (auto simp: extract_outputs_def split: sum.splits)

lemma extract_outputs_other:
  "k \<noteq> ''output_tokens'' \<Longrightarrow> map_of (snd (extract_outputs data info)) k = map_of info k"
  by (auto simp: extract_outputs_def map_of_dict_set split: sum.splits)

text \<open>
  On an attribute that is a string which the decoder decodes or rejects as malformed, the
  decode step of either key never raises; any other exception of the decoder goes
  through the handler.
\<close>

lemma extract_key_string:
  assumes "map_of attrs key = Some (JStr s)"
    and "(\<exists>v. L s = Inr v) \<or> L s = Inl JSONDecodeError"
  shows "\<exists>info'. extract_key L (JObj attrs) key info = Inr info'"
proof (cases "L s")
  case (Inl e)
  with assms show ?thesis by (simp add: extract_key_def try_body_def)
next
  case (Inr data)
  let ?r = "try_body L (JObj attrs) key info"
  have "fst ?r = None \<or> fst ?r = Some AttributeError"
    using assms(1) Inr extract_inputs_error [of data info] extract_outputs_error [of data info]
    by (cases "fst ?r") (auto simp: try_body_def split: if_splits)
  then show ?thesis
    by (cases ?r) (auto simp: extract_key_def)
qed

lemma extract_key_decoder_raises:
  assumes "map_of attrs key = Some (JStr s)" and "L s = Inl e"
    and "e \<noteq> JSONDecodeError" and "e \<noteq> AttributeError"
  shows "extract_key L (JObj attrs) key info = Inl e"
  using assms by (simp add: extract_key_def try_body_def)

lemma extract_key_outputs_other:
  assumes "extract_key L attributes ''mlflow.spanOutputs'' info = Inr info'"
    and "k \<noteq> ''output_tokens''"
  shows "map_of info' k = map_of info k"
proof -
  have "info' = snd (try_body L attributes ''mlflow.spanOutputs'' info)"
    using assms(1) by (auto simp: extract_key_def split: prod.splits option.splits if_splits)
  moreover have "map_of (snd (try_body L attributes ''mlflow.spanOutputs'' info)) k = map_of info k"
    using extract_outputs_other [OF assms(2)]
    by (auto simp: try_body_def split: sum.splits)
  ultimately show ?thesis by simp
qed

lemma extract_key_outputs_decoded:
  assumes "map_of attrs ''mlflow.spanOutputs'' = Some (JStr s)" and "L s = Inr (JObj d)"
  shows "extract_key L (JObj attrs) ''mlflow.spanOutputs'' info =
    Inr (dict_set info ''output_tokens''
           (case dict_get d ''token_ids'' (JList []) of
              JList xs \<Rightarrow> JInt (int (length xs)) | _ \<Rightarrow> JNull))"
  using assms by (simp add: extract_key_def try_body_def extract_outputs_def)

lemma extract_key_inputs_decoded:
  assumes "map_of attrs ''mlflow.spanInputs'' = Some (JStr s)" and "L s = Inr (JObj d)"
    and "dict_get d ''kwargs'' (JObj []) = JObj kw"
  shows "\<exists>info'. extract_key L (JObj attrs) ''mlflow.spanInputs'' info = Inr info' \<and>
     map_of info' ''index'' = Some (dict_get kw ''index'' JNull) \<and>
     map_of info' ''data_source'' = Some (dict_get kw ''data_source'' JNull) \<and>
     map_of info' ''sample_index'' =
       (case dict_get kw ''extra_info'' (JObj []) of
          JObj extra \<Rightarrow> Some (dict_get extra ''index'' JNull)
        | _ \<Rightarrow> map_of info ''sample_index'')"
  using assms
  by (cases "dict_get kw ''extra_info'' (JObj [])")
     (simp_all add: extract_key_def try_body_def extract_inputs_def map_of_dict_set)

text \<open>The summarizer on a record whose first span is an object with an attribute dict.\<close>

lemma extract_trace_info_first_span:
  assumes "dict_get kvs ''status'' (JObj []) = JObj status"
    and "dict_get kvs ''spans'' (JList []) = JList (JObj span # rest)"
    and "dict_get span ''attributes'' (JObj []) = JObj attrs"
  shows "extract_trace_info L (JObj kvs) =
     extract_keys L (JObj attrs) [''mlflow.spanInputs'', ''mlflow.spanOutputs'']
       [(''trace_id'', dict_get kvs ''trace_id'' JNull),
        (''status'', dict_get status ''code'' JNull),
        (''spans'', JInt (1 + int (length rest)))]"
proof -
  from assms(2) have "kvs \<noteq> []" by (auto simp: dict_get_def)
  with assms show ?thesis by (simp add: extract_trace_info_def Let_def)
qed

lemma map_of_key: "(k \<in> fst ` set kvs) = (map_of kvs k \<noteq> None)"
  by (simp add: map_of_eq_None_iff)

lemmas span_defs = table_decoder_def inputs_text_def outputs_text_def outputs_text_str_def span_decoder_def
  demo_attrs_def demo_span_def demo_record_def dict_get_def

section \<open>Facts about the detail view and the filters\<close>











section \<open>The claims\<close>

text \<open>
  C4. A trace folder with no artifact file loads to the empty record, not to an error;
  the summary of the empty record is the empty summary; the folder contributes nothing to
  a listing and does not make it raise: wherever it stands among the folders, the loop
  runs as if it were not there. A folder whose artifact file holds malformed JSON makes
  the load raise the parse error: whatever the decoder raises on the text of the file,
  the load raises.
\<close>

theorem missing_artifact:
  "(artifact d = None \<longrightarrow>
      load_trace L d = Inr (JObj []) \<and>
      extract_trace_info L (JObj []) = Inr [] \<and>
      selected L filters d = None \<and>
      list_loop L filters limit (pre @ d # rest) traces =
        list_loop L filters limit (pre @ rest) traces) \<and>
   (artifact d = Some raw \<and> L raw = Inl e \<longrightarrow> load_trace L d = Inl e)"
  using list_loop_skips_empty [of d L filters limit pre rest traces]
  by (simp add: load_trace_def extract_trace_info_def selected_def)

theorem missing_artifact_witness:
  "artifact (demo_folder ''tr-0'' None) = None \<and>
   load_trace demo_decoder (demo_folder ''tr-0'' None) = Inr (JObj []) \<and>
   list_traces demo_decoder [demo_folder ''tr-0'' None, demo_folder ''tr-1'' (Some (trace_file ''t1''))] None None
     = Inr [demo_summary ''t1'' ''tr-1''] \<and>
   artifact (demo_folder ''tr-9'' (Some ''{oops'')) = Some ''{oops'' \<and> demo_decoder ''{oops'' = Inl JSONDecodeError \<and>
   load_trace demo_decoder (demo_folder ''tr-9'' (Some ''{oops'')) = Inl JSONDecodeError"
  using missing_artifact [where d = "demo_folder ''tr-0'' None" and L = demo_decoder
      and filters = None and limit = None and pre = "[]"
      and rest = "[demo_folder ''tr-1'' (Some (trace_file ''t1''))]" and traces = "[]"]
    missing_artifact [where d = "demo_folder ''tr-9'' (Some ''{oops'')" and raw = "''{oops''"
      and L = demo_decoder and e = JSONDecodeError]
  by (simp add: demo_defs)

text \<open>
  C5. With a positive limit \<open>n\<close> the listing returns exactly the first \<open>n\<close> of the summaries
  that the listing without a limit returns, which are the summaries of all the matching
  folders in sorted order; whenever the listing with the limit returns, it returns the
  first \<open>n\<close> matching summaries; and once \<open>n\<close> summaries are collected the loop stops,
  whatever folders are left to scan.
\<close>

theorem list_traces_limit:
  "0 < n \<Longrightarrow>
     (\<forall>every. list_traces L trace_dir filters None = Inr every \<longrightarrow>
        every = matching_summaries L filters (trace_folders trace_dir) \<and>
        list_traces L trace_dir filters (Some n) = Inr (take (nat n) every)) \<and>
     (\<forall>r. list_traces L trace_dir filters (Some n) = Inr r \<longrightarrow>
        r = take (nat n) (matching_summaries L filters (trace_folders trace_dir))) \<and>
     (\<forall>rest traces. n \<le> int (length traces) \<longrightarrow>
        list_loop L filters (Some n) rest traces = Inr traces)"
  using list_loop_unlimited [of L filters "trace_folders trace_dir" "[]"]
    list_loop_limited [of n L filters "trace_folders trace_dir" "[]"]
    list_loop_limited_result [of n L filters "trace_folders trace_dir" "[]"]
    list_loop_limit_stop [of n _ L filters]
  by (simp add: list_traces_def)

theorem list_traces_limit_witness:
  "(0::int) < 2 \<and>
   list_traces demo_decoder demo_dir None None =
     Inr [demo_summary ''t1'' ''tr-1'', demo_summary ''t2'' ''tr-2'', demo_summary ''t3'' ''tr-3'',
          demo_summary ''t4'' ''tr-4'', demo_summary ''t5'' ''tr-5''] \<and>
   list_traces demo_decoder demo_dir None (Some 2) =
     Inr [demo_summary ''t1'' ''tr-1'', demo_summary ''t2'' ''tr-2'']"
proof -
  have every: "list_traces demo_decoder demo_dir None None =
     Inr [demo_summary ''t1'' ''tr-1'', demo_summary ''t2'' ''tr-2'', demo_summary ''t3'' ''tr-3'',
          demo_summary ''t4'' ''tr-4'', demo_summary ''t5'' ''tr-5'']"
    by (simp add: demo_defs)
  have pos: "(0::int) < 2" by simp
  from list_traces_limit [OF pos, of demo_decoder demo_dir None] every show ?thesis by simp
qed

text \<open>
  C10. A limit of 0 is treated like no limit, not like a request for no results: the
  listing does what it does with the limit unset, and what it returns is the summaries of
  all the matching folders.
\<close>

theorem zero_limit_unlimited:
  "list_traces L trace_dir filters (Some 0) = list_traces L trace_dir filters None \<and>
   (\<forall>every. list_traces L trace_dir filters (Some 0) = Inr every \<longrightarrow>
      every = matching_summaries L filters (trace_folders trace_dir))"
  using list_loop_unlimited [of L filters "trace_folders trace_dir" "[]"]
  by (simp add: list_traces_def list_loop_zero_limit)

theorem zero_limit_unlimited_witness:
  "list_traces demo_decoder demo_dir None (Some 0) =
     Inr [demo_summary ''t1'' ''tr-1'', demo_summary ''t2'' ''tr-2'', demo_summary ''t3'' ''tr-3'',
          demo_summary ''t4'' ''tr-4'', demo_summary ''t5'' ''tr-5''] \<and>
   matching_summaries demo_decoder None (trace_folders demo_dir) =
     [demo_summary ''t1'' ''tr-1'', demo_summary ''t2'' ''tr-2'', demo_summary ''t3'' ''tr-3'',
      demo_summary ''t4'' ''tr-4'', demo_summary ''t5'' ''tr-5'']"
proof -
  have every: "list_traces demo_decoder demo_dir None None =
     Inr [demo_summary ''t1'' ''tr-1'', demo_summary ''t2'' ''tr-2'', demo_summary ''t3'' ''tr-3'',
          demo_summary ''t4'' ''tr-4'', demo_summary ''t5'' ''tr-5'']"
    by (simp add: demo_defs)
  from zero_limit_unlimited [of demo_decoder demo_dir None] every show ?thesis
    by simp
qed

text \<open>
  C7. A trace record that is not empty, whose status is an object (or missing) and whose
  spans have length zero, is summarized without an exception to exactly the identifier,
  the status code and the span count 0: none of the fields derived from a span (index,
  data_source, sample_index, output_tokens) is set.
\<close>

theorem no_spans_summary:
  assumes "kvs \<noteq> []"
    and "dict_get kvs ''status'' (JObj []) = JObj status"
    and "py_len (dict_get kvs ''spans'' (JList [])) = Inr 0"
  shows "\<exists>info. extract_trace_info L (JObj kvs) = Inr info \<and>
           info = [(''trace_id'', dict_get kvs ''trace_id'' JNull),
                   (''status'', dict_get status ''code'' JNull),
                   (''spans'', JInt 0)] \<and>
           map_of info ''index'' = None \<and> map_of info ''data_source'' = None \<and>
           map_of info ''sample_index'' = None \<and> map_of info ''output_tokens'' = None"
  using assms py_len_zero_falsy [OF assms(3)]
  by (simp add: extract_trace_info_def)

theorem no_spans_summary_witness:
  "[(''trace_id'', JStr ''t7''), (''status'', JObj [(''code'', JStr ''OK'')]), (''spans'', JList [])] \<noteq> [] \<and>
   extract_trace_info demo_decoder
      (JObj [(''trace_id'', JStr ''t7''), (''status'', JObj [(''code'', JStr ''OK'')]),
             (''spans'', JList [])]) =
     Inr [(''trace_id'', JStr ''t7''), (''status'', JStr ''OK''), (''spans'', JInt 0)]"
  using no_spans_summary [of "[(''trace_id'', JStr ''t7''), (''status'', JObj [(''code'', JStr ''OK'')]),
             (''spans'', JList [])]" "[(''code'', JStr ''OK'')]" demo_decoder]
  by (simp add: dict_get_def)

text \<open>
  C8. The folders the listing visits are exactly the entries of the trace directory that
  are directories and whose name begins with \<^verbatim>\<open>tr-\<close>, sorted by name; every other entry is
  ignored (the listing of the directory is the listing of these entries alone). Every
  such folder is visited: without a limit the listing returns exactly when each of them
  loads and summarizes without an exception, and what a listing returns is the summaries
  of all the matching folders among them, in the order of the names (the first \<open>n\<close> of them
  under a limit \<open>n\<close> that is not 0), each carrying the path of its folder.
\<close>

theorem list_traces_candidates:
  "set (trace_folders trace_dir) = {d \<in> set trace_dir. is_dir d \<and> prefix ''tr-'' (name d)} \<and>
   list_traces L (filter (\<lambda>d. is_dir d \<and> prefix ''tr-'' (name d)) trace_dir) filters limit =
     list_traces L trace_dir filters limit \<and>
   (\<forall>r. list_traces L trace_dir filters limit = Inr r \<longrightarrow>
      (\<exists>fs. subseq fs (trace_folders trace_dir) \<and> sorted (map name fs) \<and>
         map (\<lambda>info. dict_get info ''path'' JNull) r = map (\<lambda>d. JStr (path d)) fs)) \<and>
   sorted (map name (trace_folders trace_dir)) \<and>
   (\<forall>r. list_traces L trace_dir filters limit = Inr r \<longrightarrow>
      r = (case limit of
             None \<Rightarrow> matching_summaries L filters (trace_folders trace_dir)
           | Some n \<Rightarrow>
               if n = 0 then matching_summaries L filters (trace_folders trace_dir)
               else take (nat n) (matching_summaries L filters (trace_folders trace_dir)))) \<and>
   ((\<exists>r. list_traces L trace_dir filters None = Inr r) =
      (\<forall>d \<in> set (trace_folders trace_dir).
         \<exists>trace_data info. load_trace L d = Inr trace_data \<and>
            extract_trace_info L trace_data = Inr info))"
proof (intro conjI allI impI)
  fix r assume "list_traces L trace_dir filters limit = Inr r"
  then obtain fs where fs: "subseq fs (trace_folders trace_dir)"
    "map (\<lambda>info. dict_get info ''path'' JNull) r = map (\<lambda>d. JStr (path d)) fs"
    using list_loop_paths [of L filters limit "trace_folders trace_dir" "[]" r]
    by (auto simp: list_traces_def)
  from fs(1) have "sorted (map name fs)"
    by (rule subseq_sorted_map) (rule trace_folders_sorted)
  with fs show "\<exists>fs. subseq fs (trace_folders trace_dir) \<and> sorted (map name fs) \<and>
         map (\<lambda>info. dict_get info ''path'' JNull) r = map (\<lambda>d. JStr (path d)) fs"
    by blast
next
  fix r assume "list_traces L trace_dir filters limit = Inr r"
  then show "r = (case limit of
             None \<Rightarrow> matching_summaries L filters (trace_folders trace_dir)
           | Some n \<Rightarrow>
               if n = 0 then matching_summaries L filters (trace_folders trace_dir)
               else take (nat n) (matching_summaries L filters (trace_folders trace_dir)))"
    using list_loop_result [of L filters limit "trace_folders trace_dir" r]
    by (simp add: list_traces_def)
next
  show "(\<exists>r. list_traces L trace_dir filters None = Inr r) =
      (\<forall>d \<in> set (trace_folders trace_dir).
         \<exists>trace_data info. load_trace L d = Inr trace_data \<and>
            extract_trace_info L trace_data = Inr info)"
    using list_loop_unlimited_returns [of L filters "trace_folders trace_dir" "[]"]
    by (simp add: list_traces_def)
qed (simp_all add: trace_folders_set list_traces_def trace_folders_ignore trace_folders_sorted)

theorem list_traces_candidates_witness:
  "trace_folders demo_dir =
     [demo_folder ''tr-0'' None, demo_folder ''tr-1'' (Some (trace_file ''t1'')),
      demo_folder ''tr-2'' (Some (trace_file ''t2'')), demo_folder ''tr-3'' (Some (trace_file ''t3'')),
      demo_folder ''tr-4'' (Some (trace_file ''t4'')), demo_folder ''tr-5'' (Some (trace_file ''t5''))] \<and>
   list_traces demo_decoder demo_dir None None =
     Inr [demo_summary ''t1'' ''tr-1'', demo_summary ''t2'' ''tr-2'', demo_summary ''t3'' ''tr-3'',
          demo_summary ''t4'' ''tr-4'', demo_summary ''t5'' ''tr-5''] \<and>
   matching_summaries demo_decoder None (trace_folders demo_dir) =
     [demo_summary ''t1'' ''tr-1'', demo_summary ''t2'' ''tr-2'', demo_summary ''t3'' ''tr-3'',
      demo_summary ''t4'' ''tr-4'', demo_summary ''t5'' ''tr-5''] \<and>
   (\<exists>fs. subseq fs (trace_folders demo_dir) \<and> sorted (map name fs) \<and>
      map (\<lambda>info. dict_get info ''path'' JNull)
        [demo_summary ''t1'' ''tr-1'', demo_summary ''t2'' ''tr-2'', demo_summary ''t3'' ''tr-3'',
          demo_summary ''t4'' ''tr-4'', demo_summary ''t5'' ''tr-5''] = map (\<lambda>d. JStr (path d)) fs)"
proof -
  have every: "list_traces demo_decoder demo_dir None None =
     Inr [demo_summary ''t1'' ''tr-1'', demo_summary ''t2'' ''tr-2'', demo_summary ''t3'' ''tr-3'',
          demo_summary ''t4'' ''tr-4'', demo_summary ''t5'' ''tr-5'']"
    by (simp add: demo_defs)
  have folders: "trace_folders demo_dir =
     [demo_folder ''tr-0'' None, demo_folder ''tr-1'' (Some (trace_file ''t1'')),
      demo_folder ''tr-2'' (Some (trace_file ''t2'')), demo_folder ''tr-3'' (Some (trace_file ''t3'')),
      demo_folder ''tr-4'' (Some (trace_file ''t4'')), demo_folder ''tr-5'' (Some (trace_file ''t5''))]"
    by (simp add: demo_defs)
  note inst = list_traces_candidates [of demo_dir demo_decoder None None]
  from inst every have m: "matching_summaries demo_decoder None (trace_folders demo_dir) =
     [demo_summary ''t1'' ''tr-1'', demo_summary ''t2'' ''tr-2'', demo_summary ''t3'' ''tr-3'',
      demo_summary ''t4'' ''tr-4'', demo_summary ''t5'' ''tr-5'']" by simp
  from inst every have p: "\<exists>fs. subseq fs (trace_folders demo_dir) \<and> sorted (map name fs) \<and>
      map (\<lambda>info. dict_get info ''path'' JNull)
        [demo_summary ''t1'' ''tr-1'', demo_summary ''t2'' ''tr-2'', demo_summary ''t3'' ''tr-3'',
          demo_summary ''t4'' ''tr-4'', demo_summary ''t5'' ''tr-5''] = map (\<lambda>d. JStr (path d)) fs"
    by blast
  from folders every m p show ?thesis by blast
qed

text \<open>
  C3, as the code has it. Take a trace record whose status is an object (or missing),
  whose first span is an object with an attribute dict, whose \<^verbatim>\<open>mlflow.spanInputs\<close>
  attribute is missing or a string that the decoder decodes or rejects as malformed, and
  whose \<^verbatim>\<open>mlflow.spanOutputs\<close> attribute is a string that decodes to an object with a
  \<^verbatim>\<open>token_ids\<close> field. Then the summarizer returns a summary and raises nothing, and the
  summary has the key \<^verbatim>\<open>output_tokens\<close>: it holds the length of \<^verbatim>\<open>token_ids\<close> when that is
  a list, and \<^verbatim>\<open>None\<close> when it is anything else (a string, say).
\<close>

theorem output_token_count:
  assumes "dict_get kvs ''status'' (JObj []) = JObj status"
    and "dict_get kvs ''spans'' (JList []) = JList (JObj span # rest)"
    and "dict_get span ''attributes'' (JObj []) = JObj attrs"
    and "map_of attrs ''mlflow.spanInputs'' = None \<or>
         (\<exists>s. map_of attrs ''mlflow.spanInputs'' = Some (JStr s) \<and>
              ((\<exists>v. L s = Inr v) \<or> L s = Inl JSONDecodeError))"
    and "map_of attrs ''mlflow.spanOutputs'' = Some (JStr out)"
    and "L out = Inr (JObj d)"
    and "map_of d ''token_ids'' = Some token_ids"
  shows "\<exists>info. extract_trace_info L (JObj kvs) = Inr info \<and>
     map_of info ''output_tokens'' =
       Some (case token_ids of JList xs \<Rightarrow> JInt (int (length xs)) | _ \<Rightarrow> JNull)"
proof -
  let ?info0 = "[(''trace_id'', dict_get kvs ''trace_id'' JNull),
        (''status'', dict_get status ''code'' JNull),
        (''spans'', JInt (1 + int (length rest)))]"
  have tok: "dict_get d ''token_ids'' (JList []) = token_ids"
    using assms(7) by (simp add: dict_get_def)
  have has_out: "''mlflow.spanOutputs'' \<in> fst ` set attrs"
    using assms(5) by (simp add: map_of_key)
  obtain info1 where step1:
    "extract_keys L (JObj attrs) [''mlflow.spanInputs'', ''mlflow.spanOutputs''] ?info0 =
       extract_keys L (JObj attrs) [''mlflow.spanOutputs''] info1"
  proof (cases "map_of attrs ''mlflow.spanInputs''")
    case None
    then have "''mlflow.spanInputs'' \<notin> fst ` set attrs" by (simp add: map_of_key)
    then show ?thesis by (intro that [of ?info0]) simp
  next
    case (Some v)
    with assms(4) obtain s where s: "map_of attrs ''mlflow.spanInputs'' = Some (JStr s)"
      and ok: "(\<exists>v. L s = Inr v) \<or> L s = Inl JSONDecodeError" by auto
    then have "''mlflow.spanInputs'' \<in> fst ` set attrs" by (simp add: map_of_key)
    moreover from extract_key_string [of attrs _ s L] s ok obtain info1 where
      "extract_key L (JObj attrs) ''mlflow.spanInputs'' ?info0 = Inr info1" by blast
    ultimately show ?thesis by (intro that [of info1]) simp
  qed
  have "extract_keys L (JObj attrs) [''mlflow.spanOutputs''] info1 =
      Inr (dict_set info1 ''output_tokens''
        (case token_ids of JList xs \<Rightarrow> JInt (int (length xs)) | _ \<Rightarrow> JNull))"
    using has_out extract_key_outputs_decoded [of attrs out L d info1] assms(5,6) tok by simp
  with step1 extract_trace_info_first_span [OF assms(1-3), of L] show ?thesis
    by (simp add: map_of_dict_set)
qed


theorem output_token_count_witness:
  "(\<exists>info. extract_trace_info span_decoder
             (JObj (demo_record (JStr inputs_text) (JStr outputs_text))) = Inr info \<and>
       map_of info ''output_tokens'' = Some (JInt 3)) \<and>
   (\<exists>info. extract_trace_info span_decoder
             (JObj (demo_record (JStr inputs_text) (JStr outputs_text_str))) = Inr info \<and>
       map_of info ''output_tokens'' = Some JNull)"
  using
    output_token_count [where L = span_decoder
      and kvs = "demo_record (JStr inputs_text) (JStr outputs_text)"
      and status = "[(''code'', JStr ''OK'')]"
      and span = "demo_span (JStr inputs_text) (JStr outputs_text)" and rest = "[]"
      and attrs = "demo_attrs (JStr inputs_text) (JStr outputs_text)"
      and out = outputs_text and d = "[(''token_ids'', JList [JInt 1, JInt 2, JInt 3])]"
      and token_ids = "JList [JInt 1, JInt 2, JInt 3]"]
    output_token_count [where L = span_decoder
      and kvs = "demo_record (JStr inputs_text) (JStr outputs_text_str)"
      and status = "[(''code'', JStr ''OK'')]"
      and span = "demo_span (JStr inputs_text) (JStr outputs_text_str)" and rest = "[]"
      and attrs = "demo_attrs (JStr inputs_text) (JStr outputs_text_str)"
      and out = outputs_text_str and d = "[(''token_ids'', JStr ''abc'')]"
      and token_ids = "JStr ''abc''"]
  by (simp add: span_defs)

text \<open>
  C3 as stated says that the count is absent from the summary when \<^verbatim>\<open>token_ids\<close> is not a
  list. With \<^verbatim>\<open>token_ids\<close> the string \<^verbatim>\<open>abc\<close> the summary has the key, holding \<^verbatim>\<open>None\<close>.
\<close>

theorem output_tokens_present_counterexample:
  "extract_trace_info span_decoder
     (JObj (demo_record (JStr inputs_text) (JStr outputs_text_str))) =
     Inr [(''trace_id'', JStr ''t1''), (''status'', JStr ''OK''), (''spans'', JInt 1),
          (''index'', JInt 5), (''data_source'', JStr ''a''), (''sample_index'', JInt 9),
          (''output_tokens'', JNull)] \<and>
   map_of [(''trace_id'', JStr ''t1''), (''status'', JStr ''OK''), (''spans'', JInt 1),
           (''index'', JInt 5), (''data_source'', JStr ''a''), (''sample_index'', JInt 9),
           (''output_tokens'', JNull)] ''output_tokens'' = Some JNull"
  by (simp add: extract_trace_info_def extract_key_def try_body_def extract_inputs_def
      extract_outputs_def span_defs)

text \<open>
  C6. Take a trace record of the same shape whose \<^verbatim>\<open>mlflow.spanInputs\<close> attribute is a
  string that decodes to an object whose \<^verbatim>\<open>kwargs\<close> is an object (or missing, which reads
  as the empty object), and whose \<^verbatim>\<open>mlflow.spanOutputs\<close> attribute is missing or a
  string that the decoder decodes or rejects as malformed. Then the summary's \<^verbatim>\<open>index\<close> and \<^verbatim>\<open>data_source\<close> are what \<^verbatim>\<open>kwargs\<close> holds under these
  keys, and \<^verbatim>\<open>sample_index\<close> is what the \<^verbatim>\<open>extra_info\<close> of \<^verbatim>\<open>kwargs\<close> holds under \<^verbatim>\<open>index\<close>
  when \<^verbatim>\<open>extra_info\<close> is an object (or missing) and is not set when \<^verbatim>\<open>extra_info\<close> is
  anything else.
\<close>

theorem span_inputs_fields:
  assumes "dict_get kvs ''status'' (JObj []) = JObj status"
    and "dict_get kvs ''spans'' (JList []) = JList (JObj span # rest)"
    and "dict_get span ''attributes'' (JObj []) = JObj attrs"
    and "map_of attrs ''mlflow.spanInputs'' = Some (JStr inp)"
    and "L inp = Inr (JObj d)"
    and "dict_get d ''kwargs'' (JObj []) = JObj kwargs"
    and "map_of attrs ''mlflow.spanOutputs'' = None \<or>
         (\<exists>s. map_of attrs ''mlflow.spanOutputs'' = Some (JStr s) \<and>
              ((\<exists>v. L s = Inr v) \<or> L s = Inl JSONDecodeError))"
  shows "\<exists>info. extract_trace_info L (JObj kvs) = Inr info \<and>
     map_of info ''index'' = Some (dict_get kwargs ''index'' JNull) \<and>
     map_of info ''data_source'' = Some (dict_get kwargs ''data_source'' JNull) \<and>
     map_of info ''sample_index'' =
       (case dict_get kwargs ''extra_info'' (JObj []) of
          JObj extra \<Rightarrow> Some (dict_get extra ''index'' JNull)
        | _ \<Rightarrow> None)"
proof -
  let ?info0 = "[(''trace_id'', dict_get kvs ''trace_id'' JNull),
        (''status'', dict_get status ''code'' JNull),
        (''spans'', JInt (1 + int (length rest)))]"
  have has_in: "''mlflow.spanInputs'' \<in> fst ` set attrs"
    using assms(4) by (simp add: map_of_key)
  from extract_key_inputs_decoded [of attrs inp L d kwargs ?info0] assms(4-6)
  obtain info1 where
    key1: "extract_key L (JObj attrs) ''mlflow.spanInputs'' ?info0 = Inr info1" and
    idx: "map_of info1 ''index'' = Some (dict_get kwargs ''index'' JNull)" and
    src: "map_of info1 ''data_source'' = Some (dict_get kwargs ''data_source'' JNull)" and
    smp: "map_of info1 ''sample_index'' =
       (case dict_get kwargs ''extra_info'' (JObj []) of
          JObj extra \<Rightarrow> Some (dict_get extra ''index'' JNull)
        | _ \<Rightarrow> map_of ?info0 ''sample_index'')"
    by blast
  have smp': "map_of info1 ''sample_index'' =
       (case dict_get kwargs ''extra_info'' (JObj []) of
          JObj extra \<Rightarrow> Some (dict_get extra ''index'' JNull)
        | _ \<Rightarrow> None)"
    using smp by (simp split: json.splits)
  have step1: "extract_trace_info L (JObj kvs) =
      extract_keys L (JObj attrs) [''mlflow.spanOutputs''] info1"
    using extract_trace_info_first_span [OF assms(1-3), of L] has_in key1 by simp
  show ?thesis
  proof (cases "map_of attrs ''mlflow.spanOutputs''")
    case None
    then have "''mlflow.spanOutputs'' \<notin> fst ` set attrs" by (simp add: map_of_key)
    with step1 have "extract_trace_info L (JObj kvs) = Inr info1" by simp
    with idx src smp' show ?thesis by simp
  next
    case (Some v)
    with assms(7) obtain s where s: "map_of attrs ''mlflow.spanOutputs'' = Some (JStr s)"
      and ok: "(\<exists>v. L s = Inr v) \<or> L s = Inl JSONDecodeError" by auto
    then have has_out: "''mlflow.spanOutputs'' \<in> fst ` set attrs" by (simp add: map_of_key)
    from extract_key_string [of attrs _ s L] s ok obtain info2 where
      key2: "extract_key L (JObj attrs) ''mlflow.spanOutputs'' info1 = Inr info2" by blast
    have same: "map_of info2 k = map_of info1 k" if "k \<noteq> ''output_tokens''" for k
      using extract_key_outputs_other [OF key2 that] .
    from step1 has_out key2 have "extract_trace_info L (JObj kvs) = Inr info2" by simp
    with idx src smp' same show ?thesis by simp
  qed
qed

theorem span_inputs_fields_witness:
  "\<exists>info. extract_trace_info span_decoder
            (JObj (demo_record (JStr inputs_text) (JStr outputs_text))) = Inr info \<and>
      map_of info ''index'' = Some (JInt 5) \<and>
      map_of info ''data_source'' = Some (JStr ''a'') \<and>
      map_of info ''sample_index'' = Some (JInt 9)"
  using
    span_inputs_fields [where L = span_decoder
      and kvs = "demo_record (JStr inputs_text) (JStr outputs_text)"
      and status = "[(''code'', JStr ''OK'')]"
      and span = "demo_span (JStr inputs_text) (JStr outputs_text)" and rest = "[]"
      and attrs = "demo_attrs (JStr inputs_text) (JStr outputs_text)"
      and inp = inputs_text
      and d = "[(''kwargs'',
                JObj [(''index'', JInt 5), (''data_source'', JStr ''a''),
                      (''extra_info'', JObj [(''index'', JInt 9)])])]"
      and kwargs = "[(''index'', JInt 5), (''data_source'', JStr ''a''),
                      (''extra_info'', JObj [(''index'', JInt 9)])]"]
  by (simp add: span_defs)

text \<open>
  C2. The claim is that no value of a span's \<^verbatim>\<open>mlflow.spanInputs\<close> attribute makes the
  summarizer raise. An attribute stored as a native object instead of a JSON-encoded
  string does: \<^verbatim>\<open>json.loads\<close> raises \<^verbatim>\<open>TypeError\<close> on it, which the handler
  \<^verbatim>\<open>except (json.JSONDecodeError, AttributeError)\<close> lets through, whatever the decoder
  does on strings. (On an attribute that is a string, the decode step does not raise
  when the decoder returns a value or raises \<^verbatim>\<open>JSONDecodeError\<close>: \<open>extract_key_string\<close>;
  any other exception of the decoder on the string goes through the handler too:
  \<open>extract_key_decoder_raises\<close>. A failed body leaves the summary as it was:
  \<open>extract_inputs_failed\<close>, \<open>extract_outputs_failed\<close>.)
\<close>

theorem native_attribute_raises:
  "extract_trace_info L
     (JObj (demo_record (JObj [(''kwargs'', JObj [(''index'', JInt 5)])]) (JStr outputs_text))) =
   Inl TypeError"
  by (simp add: extract_trace_info_def extract_key_def try_body_def span_defs)






end
